theory Spec2Isabelle
  imports Main "HOL-Library.Word"
begin

section \<open>Exceptions and HTTP status\<close>

text \<open>
  Every exception the handlers of \<^verbatim>\<open>main.py\<close> can raise is a value. All of them are
  subclasses of Python's \<^verbatim>\<open>Exception\<close>, \<^verbatim>\<open>fastapi.HTTPException\<close> included, so a
  clause \<^verbatim>\<open>except Exception\<close> catches each of them.
\<close>

datatype exn =
    HTTPException nat string
  | InvalidId string
  | IndexError
  | TypeError
  | DatabaseNotAvailable

text \<open>
  What the HTTP framework sends for the outcome of a handler: the status code of a raised
  \<^verbatim>\<open>HTTPException\<close>, 500 for any other exception that leaves the handler, 200 otherwise.
\<close>

fun http_status :: "exn + 'a \<Rightarrow> nat" where
  "http_status (Inr _) = 200"
| "http_status (Inl (HTTPException code _)) = code"
| "http_status (Inl _) = 500"

text \<open>\<^verbatim>\<open>try: body  except Exception: handler\<close>\<close>

definition try_except :: "exn + 'a \<Rightarrow> (exn \<Rightarrow> exn + 'a) \<Rightarrow> exn + 'a" where
  "try_except body handler = (case body of Inl e \<Rightarrow> handler e | Inr r \<Rightarrow> Inr r)"

section \<open>Store identifiers\<close>

text \<open>
  \<^verbatim>\<open>bson.ObjectId\<close>, of the driver's library, holds the bytes of an identifier. An
  identifier of the store has 12 bytes, and its display form \<^verbatim>\<open>str(oid)\<close> is the 24
  lower-case hexadecimal digits of those bytes. \<^verbatim>\<open>ObjectId(s)\<close> on a string checks
  \<^verbatim>\<open>len(s) == 24\<close> and then calls \<^verbatim>\<open>bytes.fromhex(s)\<close>, raising \<^verbatim>\<open>InvalidId\<close> when
  either fails. \<^verbatim>\<open>bytes.fromhex\<close> skips ASCII whitespace before each pair of hexadecimal
  digits, so a string of 24 characters with whitespace in it can be accepted, and the
  object then holds fewer than 12 bytes: that is a \<open>ShortObjectId\<close>, which is the
  identifier of no document.
\<close>

datatype ObjectId = ObjectId "96 word" | ShortObjectId "nat list"

definition hexdigits :: string where
  "hexdigits = ''0123456789abcdef''"

fun hex_of :: "nat \<Rightarrow> nat \<Rightarrow> string" where
  "hex_of 0 n = []"
| "hex_of (Suc k) n = hex_of k (n div 16) @ [hexdigits ! (n mod 16)]"

text \<open>\<^verbatim>\<open>str(oid)\<close>: two hexadecimal digits for each byte.\<close>

definition str_ObjectId :: "ObjectId \<Rightarrow> string" where
  "str_ObjectId oid =
     (case oid of
        ObjectId w \<Rightarrow> hex_of 24 (unat w)
      | ShortObjectId bs \<Rightarrow> concat (map (hex_of 2) bs))"

definition hex_value :: "char \<Rightarrow> nat option" where
  "hex_value c =
     (let n = (of_char c :: nat) in
      if 48 \<le> n \<and> n \<le> 57 then Some (n - 48)
      else if 97 \<le> n \<and> n \<le> 102 then Some (n - 87)
      else if 65 \<le> n \<and> n \<le> 70 then Some (n - 55)
      else None)"

text \<open>ASCII whitespace: tab, line feed, vertical tab, form feed, carriage return, space.\<close>

definition isspace :: "char \<Rightarrow> bool" where
  "isspace c = (let n = (of_char c :: nat) in (9 \<le> n \<and> n \<le> 13) \<or> n = 32)"

text \<open>
  \<^verbatim>\<open>bytes.fromhex\<close>: whitespace is skipped where a byte may start; a byte is two
  hexadecimal digits next to each other; anything else is a \<^verbatim>\<open>ValueError\<close> (\<open>None\<close>).
\<close>

fun fromhex :: "string \<Rightarrow> nat list option" where
  "fromhex [] = Some []"
| "fromhex (c # cs) =
     (if isspace c then fromhex cs
      else
        (case hex_value c of
           None \<Rightarrow> None
         | Some hi \<Rightarrow>
             (case cs of
                [] \<Rightarrow> None
              | c2 # rest \<Rightarrow>
                  (case hex_value c2 of
                     None \<Rightarrow> None
                   | Some lo \<Rightarrow> map_option ((#) (16 * hi + lo)) (fromhex rest)))))"

text \<open>The number that a list of bytes writes, most significant byte first.\<close>

definition bytes_value :: "nat list \<Rightarrow> nat" where
  "bytes_value bs = foldl (\<lambda>a b. 256 * a + b) 0 bs"

definition ObjectId_of_str :: "string \<Rightarrow> exn + ObjectId" where
  "ObjectId_of_str s =
     (if length s = 24 then
        (case fromhex s of
           Some bs \<Rightarrow>
             Inr (if length bs = 12 then ObjectId (of_nat (bytes_value bs))
                  else ShortObjectId bs)
         | None \<Rightarrow> Inl (InvalidId s))
      else Inl (InvalidId s))"

text \<open>
  \<open>well_formed_id\<close>: \<^verbatim>\<open>ObjectId(s)\<close> does not raise. \<open>store_format\<close>: the string has
  the format of the store's identifiers, 24 hexadecimal digits.
\<close>

definition well_formed_id :: "string \<Rightarrow> bool" where
  "well_formed_id s = (case ObjectId_of_str s of Inl _ \<Rightarrow> False | Inr _ \<Rightarrow> True)"

definition store_format :: "string \<Rightarrow> bool" where
  "store_format s \<longleftrightarrow> length s = 24 \<and> list_all (\<lambda>c. hex_value c \<noteq> None) s"

text \<open>
  For the proofs: the number that a string of hexadecimal digits writes, after the digits
  of \<open>acc\<close>.
\<close>

fun hex_number :: "nat \<Rightarrow> string \<Rightarrow> nat option" where
  "hex_number acc [] = Some acc"
| "hex_number acc (c # cs) =
     (case hex_value c of None \<Rightarrow> None | Some v \<Rightarrow> hex_number (16 * acc + v) cs)"

section \<open>Schemas (\<^verbatim>\<open>schemas.py\<close>) and request bodies (\<^verbatim>\<open>main.py\<close>)\<close>

record User =
  user_name :: "string option"
  user_email :: string
  user_password_hash :: "string option"
  user_auth_provider :: string
  user_is_active :: bool

record LeadJob =
  job_user_id :: "string option"
  job_location :: string
  job_job_title :: string
  job_company_size_range :: string
  job_industry_keywords :: "string list"
  job_status :: string
  job_result_count :: int

record Lead =
  lead_job_id :: string
  lead_name :: string
  lead_email :: "string option"
  lead_phone :: "string option"
  lead_linkedin :: "string option"
  lead_company :: string
  lead_title :: string
  lead_location :: string
  lead_company_size :: string
  lead_industry :: "string option"

record LeadRequest =
  location :: string
  job_title :: string
  company_size_range :: string
  industry_keywords :: "string list"

record LoginRequest =
  login_email :: string
  login_password :: string

record GoogleAuthRequest =
  google_email :: string
  google_name :: "string option"

text \<open>
  The field constraints of \<^verbatim>\<open>LeadRequest\<close> (\<^verbatim>\<open>min_length\<close>, \<^verbatim>\<open>min_items\<close>), which the
  framework checks before \<^verbatim>\<open>request_leads\<close> runs. A string is the list of its characters.
\<close>

definition valid_LeadRequest :: "LeadRequest \<Rightarrow> bool" where
  "valid_LeadRequest payload \<longleftrightarrow>
     2 \<le> length (location payload) \<and>
     2 \<le> length (job_title payload) \<and>
     1 \<le> length (company_size_range payload) \<and>
     1 \<le> length (industry_keywords payload)"

section \<open>The document store\<close>

text \<open>
  A collection is the list of its documents in store order, each with its \<^verbatim>\<open>_id\<close>. The
  store hands out the identifiers; \<open>next_oid\<close> counts the identifiers issued so far.
  The global \<^verbatim>\<open>db\<close> of the program is a \<open>database option\<close>: \<open>None\<close> is Python's \<^verbatim>\<open>None\<close>.
\<close>

record database =
  user :: "(ObjectId \<times> User) list"
  leadjob :: "(ObjectId \<times> LeadJob) list"
  lead :: "(ObjectId \<times> Lead) list"
  next_oid :: nat

definition new_oid :: "database \<Rightarrow> ObjectId" where
  "new_oid d = ObjectId (of_nat (next_oid d))"

text \<open>
  The driver's \<^verbatim>\<open>find_one\<close> and \<^verbatim>\<open>update_one\<close>: the first matching document. A query by
  \<^verbatim>\<open>_id\<close> compares identifiers, so a \<open>ShortObjectId\<close> matches no document whose identifier
  has 12 bytes.
\<close>

definition find_one :: "(ObjectId \<times> 'a \<Rightarrow> bool) \<Rightarrow> (ObjectId \<times> 'a) list \<Rightarrow> (ObjectId \<times> 'a) option" where
  "find_one flt coll = List.find flt coll"

fun update_one :: "(ObjectId \<times> 'a \<Rightarrow> bool) \<Rightarrow> ('a \<Rightarrow> 'a) \<Rightarrow> (ObjectId \<times> 'a) list \<Rightarrow> (ObjectId \<times> 'a) list" where
  "update_one flt upd [] = []"
| "update_one flt upd (doc # coll) =
     (if flt doc then (fst doc, upd (snd doc)) # coll else doc # update_one flt upd coll)"

text \<open>
  Modelled from the spec: the persistence helpers \<^verbatim>\<open>create_document\<close> and \<^verbatim>\<open>get_documents\<close>
  of the module \<^verbatim>\<open>database\<close>, which \<^verbatim>\<open>main.py\<close> imports and which is not among the source
  files. Section 4.1 of the specification: \<^verbatim>\<open>create(collection, record) -> id\<close> inserts the
  record and returns its newly assigned identifier, and fails with a store-unavailable error
  if the store handle is absent; \<^verbatim>\<open>query(collection, filter, limit)\<close> returns up to
  \<^verbatim>\<open>limit\<close> matching records in store order. Section 3: identifiers are store-assigned.
  There is one function for each collection the handlers write to or query.
\<close>

definition create_document_user :: "database option \<Rightarrow> User \<Rightarrow> exn + (string \<times> database)" where
  "create_document_user db data =
     (case db of
        None \<Rightarrow> Inl DatabaseNotAvailable
      | Some d \<Rightarrow>
          Inr (str_ObjectId (new_oid d),
               d\<lparr>user := user d @ [(new_oid d, data)], next_oid := Suc (next_oid d)\<rparr>))"

definition create_document_leadjob :: "database option \<Rightarrow> LeadJob \<Rightarrow> exn + (string \<times> database)" where
  "create_document_leadjob db data =
     (case db of
        None \<Rightarrow> Inl DatabaseNotAvailable
      | Some d \<Rightarrow>
          Inr (str_ObjectId (new_oid d),
               d\<lparr>leadjob := leadjob d @ [(new_oid d, data)], next_oid := Suc (next_oid d)\<rparr>))"

definition create_document_lead :: "database option \<Rightarrow> Lead \<Rightarrow> exn + (string \<times> database)" where
  "create_document_lead db data =
     (case db of
        None \<Rightarrow> Inl DatabaseNotAvailable
      | Some d \<Rightarrow>
          Inr (str_ObjectId (new_oid d),
               d\<lparr>lead := lead d @ [(new_oid d, data)], next_oid := Suc (next_oid d)\<rparr>))"

definition get_documents_lead ::
  "database option \<Rightarrow> (ObjectId \<times> Lead \<Rightarrow> bool) \<Rightarrow> nat \<Rightarrow> exn + (ObjectId \<times> Lead) list" where
  "get_documents_lead db filter_dict limit =
     (case db of
        None \<Rightarrow> Inl DatabaseNotAvailable
      | Some d \<Rightarrow> Inr (take limit (filter filter_dict (lead d))))"

section \<open>String formatting\<close>

text \<open>\<^verbatim>\<open>str(i)\<close> and the format specifications \<^verbatim>\<open>{i}\<close> and \<^verbatim>\<open>{i:02d}\<close> of an integer.\<close>

fun digits10 :: "nat \<Rightarrow> string" where
  "digits10 n =
     (if n < 10 then [''0123456789'' ! n]
      else digits10 (n div 10) @ [''0123456789'' ! (n mod 10)])"

declare digits10.simps [simp del]

definition str_int :: "int \<Rightarrow> string" where
  "str_int i = (if i < 0 then ''-'' @ digits10 (nat (- i)) else digits10 (nat i))"

definition format_02d :: "int \<Rightarrow> string" where
  "format_02d i =
     (let sign = (if i < 0 then ''-'' else []);
          ds = digits10 (nat \<bar>i\<bar>)
      in sign @ replicate (2 - (length sign + length ds)) (CHR ''0'') @ ds)"

section \<open>Responses\<close>

record AuthResponse =
  token :: string
  auth_email :: string
  auth_name :: "string option"

record MeResponse =
  me_email :: string
  me_name :: "string option"

record LeadRequestResponse =
  job_id :: string
  status :: string
  message :: string

record StatusResponse =
  status_status :: string
  status_result_count :: int

section \<open>Auth handlers (\<^verbatim>\<open>main.py\<close>)\<close>

definition auth_response :: "ObjectId \<times> User \<Rightarrow> AuthResponse" where
  "auth_response usr =
     \<lparr>token = str_ObjectId (fst usr),
      auth_email = user_email (snd usr),
      auth_name = user_name (snd usr)\<rparr>"

text \<open>
  \<^verbatim>\<open>user = find_one(...); token = str(user["_id"])\<close>: subscripting \<^verbatim>\<open>None\<close> raises
  \<^verbatim>\<open>TypeError\<close>.
\<close>

definition auth_result :: "(ObjectId \<times> User) option \<Rightarrow> exn + AuthResponse" where
  "auth_result found = (case found of None \<Rightarrow> Inl TypeError | Some usr \<Rightarrow> Inr (auth_response usr))"

text \<open>
  The body that \<^verbatim>\<open>login\<close> and \<^verbatim>\<open>google_auth\<close> share once \<^verbatim>\<open>db\<close> is known not to be
  \<^verbatim>\<open>None\<close>: find the user by email, or create it and read it back by its identifier.
\<close>

definition find_or_create_user ::
  "database \<Rightarrow> string \<Rightarrow> User \<Rightarrow> (exn + AuthResponse) \<times> database option" where
  "find_or_create_user d email new_user =
     (case find_one (\<lambda>doc. user_email (snd doc) = email) (user d) of
        Some usr \<Rightarrow> (auth_result (Some usr), Some d)
      | None \<Rightarrow>
          (case create_document_user (Some d) new_user of
             Inl e \<Rightarrow> (Inl e, Some d)
           | Inr (user_id, d') \<Rightarrow>
               (case ObjectId_of_str user_id of
                  Inl e \<Rightarrow> (Inl e, Some d')
                | Inr oid \<Rightarrow> (auth_result (find_one (\<lambda>doc. fst doc = oid) (user d')), Some d'))))"

definition login :: "database option \<Rightarrow> LoginRequest \<Rightarrow> (exn + AuthResponse) \<times> database option" where
  "login db payload =
     (case db of
        None \<Rightarrow> (Inl (HTTPException 500 ''Database not available''), db)
      | Some d \<Rightarrow>
          find_or_create_user d (login_email payload)
            \<lparr>user_name = None, user_email = login_email payload,
             user_password_hash = Some ''demo'', user_auth_provider = ''password'',
             user_is_active = True\<rparr>)"

text \<open>\<^verbatim>\<open>payload.name or ""\<close>: \<^verbatim>\<open>None\<close> and the empty string both give the empty string.\<close>

definition name_or_empty :: "string option \<Rightarrow> string" where
  "name_or_empty n = (case n of None \<Rightarrow> [] | Some s \<Rightarrow> s)"

definition google_auth ::
  "database option \<Rightarrow> GoogleAuthRequest \<Rightarrow> (exn + AuthResponse) \<times> database option" where
  "google_auth db payload =
     (case db of
        None \<Rightarrow> (Inl (HTTPException 500 ''Database not available''), db)
      | Some d \<Rightarrow>
          find_or_create_user d (google_email payload)
            \<lparr>user_name = Some (name_or_empty (google_name payload)),
             user_email = google_email payload,
             user_password_hash = None, user_auth_provider = ''google'',
             user_is_active = True\<rparr>)"

definition me :: "database option \<Rightarrow> string \<Rightarrow> exn + MeResponse" where
  "me db tok =
     (case db of
        None \<Rightarrow> Inl (HTTPException 500 ''Database not available'')
      | Some d \<Rightarrow>
          try_except
            (case ObjectId_of_str tok of
               Inl e \<Rightarrow> Inl e
             | Inr oid \<Rightarrow>
                 (case find_one (\<lambda>doc. fst doc = oid) (user d) of
                    None \<Rightarrow> Inl (HTTPException 404 ''User not found'')
                  | Some usr \<Rightarrow>
                      Inr \<lparr>me_email = user_email (snd usr), me_name = user_name (snd usr)\<rparr>))
            (\<lambda>_. Inl (HTTPException 400 ''Invalid token'')))"

section \<open>Lead generation handlers (\<^verbatim>\<open>main.py\<close>)\<close>

definition mock_lead :: "LeadRequest \<Rightarrow> string \<Rightarrow> string \<Rightarrow> int \<Rightarrow> Lead" where
  "mock_lead payload jid industry i =
     \<lparr>lead_job_id = jid,
      lead_name = ''Contact '' @ str_int i,
      lead_email = Some (''contact'' @ str_int i @ ''@example.com''),
      lead_phone = Some (''+1-202-555-01'' @ format_02d i),
      lead_linkedin = Some (''https://linkedin.com/in/contact'' @ str_int i),
      lead_company = ''Company '' @ str_int i,
      lead_title = job_title payload,
      lead_location = location payload,
      lead_company_size = company_size_range payload,
      lead_industry = Some industry\<rparr>"

text \<open>
  The body of \<^verbatim>\<open>for i in range(1, 11)\<close>, over the remaining indices; \<open>mock_leads\<close> is the
  list built so far. \<^verbatim>\<open>payload.industry_keywords[0]\<close> raises \<^verbatim>\<open>IndexError\<close> on an empty
  list. An exception leaves the loop with the documents written so far in the store.
\<close>

fun generate_mock_leads ::
  "LeadRequest \<Rightarrow> string \<Rightarrow> int list \<Rightarrow> Lead list \<Rightarrow> database \<Rightarrow> (exn + Lead list) \<times> database" where
  "generate_mock_leads payload jid [] mock_leads d = (Inr mock_leads, d)"
| "generate_mock_leads payload jid (i # rest) mock_leads d =
     (case industry_keywords payload of
        [] \<Rightarrow> (Inl IndexError, d)
      | industry # _ \<Rightarrow>
          (case create_document_lead (Some d) (mock_lead payload jid industry i) of
             Inl e \<Rightarrow> (Inl e, d)
           | Inr (_, d') \<Rightarrow>
               generate_mock_leads payload jid rest
                 (mock_leads @ [mock_lead payload jid industry i]) d'))"

text \<open>The job that \<^verbatim>\<open>request_leads\<close> builds from the payload.\<close>

definition new_LeadJob :: "LeadRequest \<Rightarrow> LeadJob" where
  "new_LeadJob payload =
     \<lparr>job_user_id = None, job_location = location payload,
      job_job_title = job_title payload,
      job_company_size_range = company_size_range payload,
      job_industry_keywords = industry_keywords payload,
      job_status = ''processing'', job_result_count = 0\<rparr>"

definition request_leads ::
  "database option \<Rightarrow> LeadRequest \<Rightarrow> (exn + LeadRequestResponse) \<times> database option" where
  "request_leads db payload =
     (case db of
        None \<Rightarrow> (Inl (HTTPException 500 ''Database not available''), db)
      | Some d \<Rightarrow>
          (case create_document_leadjob (Some d) (new_LeadJob payload) of
             Inl e \<Rightarrow> (Inl e, Some d)
           | Inr (jid, d1) \<Rightarrow>
               (case generate_mock_leads payload jid [1..10] [] d1 of
                  (Inl e, d2) \<Rightarrow> (Inl e, Some d2)
                | (Inr mock_leads, d2) \<Rightarrow>
                    (case ObjectId_of_str jid of
                       Inl e \<Rightarrow> (Inl e, Some d2)
                     | Inr oid \<Rightarrow>
                         (Inr \<lparr>job_id = jid, status = ''processing'',
                               message = ''Your leads are being generated. You'' @ [CHR 0x27] @
                                         ''ll be notified when ready.''\<rparr>,
                          Some (d2\<lparr>leadjob :=
                                  update_one (\<lambda>doc. fst doc = oid)
                                    (\<lambda>j. j\<lparr>job_status := ''ready'',
                                            job_result_count := int (length mock_leads)\<rparr>)
                                    (leadjob d2)\<rparr>))))))"

definition get_lead_status :: "database option \<Rightarrow> string \<Rightarrow> exn + StatusResponse" where
  "get_lead_status db jid =
     (case db of
        None \<Rightarrow> Inl (HTTPException 500 ''Database not available'')
      | Some d \<Rightarrow>
          try_except
            (case ObjectId_of_str jid of
               Inl e \<Rightarrow> Inl e
             | Inr oid \<Rightarrow>
                 (case find_one (\<lambda>doc. fst doc = oid) (leadjob d) of
                    None \<Rightarrow> Inl (HTTPException 404 ''Job not found'')
                  | Some job \<Rightarrow>
                      Inr \<lparr>status_status = job_status (snd job),
                           status_result_count = job_result_count (snd job)\<rparr>))
            (\<lambda>_. Inl (HTTPException 400 ''Invalid job id'')))"

text \<open>
  The leads of the response carry their \<^verbatim>\<open>_id\<close> as a string: \<^verbatim>\<open>l["_id"] = str(l["_id"])\<close>.
\<close>

definition get_lead_results :: "database option \<Rightarrow> string \<Rightarrow> exn + (string \<times> Lead) list" where
  "get_lead_results db jid =
     (case db of
        None \<Rightarrow> Inl (HTTPException 500 ''Database not available'')
      | Some d \<Rightarrow>
          try_except
            (case ObjectId_of_str jid of
               Inl e \<Rightarrow> Inl e
             | Inr _ \<Rightarrow>
                 (case get_documents_lead db (\<lambda>doc. lead_job_id (snd doc) = jid) 200 of
                    Inl e \<Rightarrow> Inl e
                  | Inr leads \<Rightarrow> Inr (map (\<lambda>l. (str_ObjectId (fst l), snd l)) leads)))
            (\<lambda>_. Inl (HTTPException 400 ''Invalid job id'')))"

section \<open>Reachable stores and the job invariant\<close>

text \<open>
  The stores the API can produce: from an empty store, by the three handlers that write.
  \<^verbatim>\<open>me\<close>, \<^verbatim>\<open>get_lead_status\<close> and \<^verbatim>\<open>get_lead_results\<close> only read. \<^verbatim>\<open>request_leads\<close> runs
  on validated payloads only.
\<close>

inductive reachable :: "database \<Rightarrow> bool" where
  initial: "reachable \<lparr>user = [], leadjob = [], lead = [], next_oid = n\<rparr>"
| after_login:
    "reachable d \<Longrightarrow> login (Some d) payload = (r, Some d') \<Longrightarrow> reachable d'"
| after_google_auth:
    "reachable d \<Longrightarrow> google_auth (Some d) gpayload = (r, Some d') \<Longrightarrow> reachable d'"
| after_request_leads:
    "reachable d \<Longrightarrow> valid_LeadRequest lpayload \<Longrightarrow>
     request_leads (Some d) lpayload = (r', Some d') \<Longrightarrow> reachable d'"

text \<open>The Lead documents that reference a job by its identifier in display form.\<close>

definition leads_of :: "database \<Rightarrow> string \<Rightarrow> (ObjectId \<times> Lead) list" where
  "leads_of d jid = filter (\<lambda>doc. lead_job_id (snd doc) = jid) (lead d)"

definition ready_jobs_counted :: "database \<Rightarrow> bool" where
  "ready_jobs_counted d \<longleftrightarrow>
     (\<forall>job \<in> set (leadjob d).
        job_status (snd job) = ''ready'' \<longrightarrow>
        job_result_count (snd job) = int (length (leads_of d (str_ObjectId (fst job)))))"

text \<open>
  What the proof of the invariant carries along: the job identifiers in the store were
  issued by the counter, and every Lead references a job of the store.
\<close>

definition jobs_issued :: "database \<Rightarrow> bool" where
  "jobs_issued d \<longleftrightarrow>
     (\<forall>job \<in> set (leadjob d). \<exists>k < next_oid d. fst job = ObjectId (of_nat k))"

definition leads_reference_jobs :: "database \<Rightarrow> bool" where
  "leads_reference_jobs d \<longleftrightarrow>
     (\<forall>l \<in> set (lead d). \<exists>job \<in> set (leadjob d). lead_job_id (snd l) = str_ObjectId (fst job))"

text \<open>The users of the store with a given email.\<close>

definition users_with_email :: "database \<Rightarrow> string \<Rightarrow> (ObjectId \<times> User) list" where
  "users_with_email d email = filter (\<lambda>doc. user_email (snd doc) = email) (user d)"

section \<open>Example inputs\<close>

definition empty_database :: database where
  "empty_database = \<lparr>user = [], leadjob = [], lead = [], next_oid = 0\<rparr>"

definition example_request :: LeadRequest where
  "example_request =
     \<lparr>location = ''NYC'', job_title = ''Engineer'', company_size_range = ''11-50'',
      industry_keywords = [''SaaS'']\<rparr>"

text \<open>A store with two jobs: two leads reference the first job, one the second.\<close>

definition example_store :: database where
  "example_store =
     \<lparr>user = [],
      leadjob = [(ObjectId 0, new_LeadJob example_request),
                 (ObjectId 1, new_LeadJob example_request)],
      lead = [(ObjectId 2, mock_lead example_request ''000000000000000000000000'' ''SaaS'' 1),
              (ObjectId 3, mock_lead example_request ''000000000000000000000001'' ''SaaS'' 1),
              (ObjectId 4, mock_lead example_request ''000000000000000000000000'' ''SaaS'' 2)],
      next_oid = 5\<rparr>"

section \<open>Identifiers: display form and parsing\<close>

lemma length_hex_of: "length (hex_of k n) = k"
  by (induction k arbitrary: n) simp_all

lemma hex_value_hexdigits: "d < 16 \<Longrightarrow> hex_value (hexdigits ! d) = Some d"
proof -
  assume "d < 16"
  then have "d \<in> set [0..<16]" by simp
  moreover have "\<forall>d \<in> set [0..<16]. hex_value (hexdigits ! d) = Some d"
    by code_simp
  ultimately show ?thesis by blast
qed

lemma hex_number_append:
  "hex_number acc (cs @ [c]) =
     (case hex_number acc cs of None \<Rightarrow> None
      | Some a \<Rightarrow> (case hex_value c of None \<Rightarrow> None | Some v \<Rightarrow> Some (16 * a + v)))"
  by (induction cs arbitrary: acc) (simp_all split: option.splits)

lemma hex_number_hex_of: "hex_number acc (hex_of k n) = Some (acc * 16 ^ k + n mod 16 ^ k)"
proof (induction k arbitrary: n)
  case 0
  then show ?case by simp
next
  case (Suc k)
  have "n mod (16 * 16 ^ k) = 16 * (n div 16 mod 16 ^ k) + n mod 16"
    by (rule mod_mult2_eq)
  then show ?case
    by (simp add: hex_number_append Suc hex_value_hexdigits algebra_simps)
qed

lemma hex_digit_not_space: "hex_value c = Some v \<Longrightarrow> \<not> isspace c"
  by (auto simp: hex_value_def isspace_def Let_def split: if_splits)

lemma hex_of_digits: "list_all (\<lambda>c. hex_value c \<noteq> None) (hex_of k n)"
  by (induction k arbitrary: n) (simp_all add: hex_value_hexdigits)

text \<open>
  On a string of hexadecimal digits of even length, \<^verbatim>\<open>bytes.fromhex\<close> succeeds with one
  byte for each pair, and the bytes write the number that the digits write.
\<close>

lemma fromhex_digits:
  "list_all (\<lambda>c. hex_value c \<noteq> None) s \<Longrightarrow> even (length s) \<Longrightarrow>
   \<exists>bs. fromhex s = Some bs \<and> 2 * length bs = length s \<and>
        (\<forall>acc. hex_number acc s = Some (foldl (\<lambda>a b. 256 * a + b) acc bs))"
proof (induction s rule: fromhex.induct)
  case 1
  then show ?case by simp
next
  case (2 c cs)
  from "2.prems"(1) obtain hi where hi: "hex_value c = Some hi"
    by auto
  then have nospace: "\<not> isspace c"
    by (rule hex_digit_not_space)
  from "2.prems"(2) obtain c2 rest where cs: "cs = c2 # rest"
    by (cases cs) auto
  with "2.prems"(1) obtain lo where lo: "hex_value c2 = Some lo"
    by auto
  have "list_all (\<lambda>c. hex_value c \<noteq> None) rest" and "even (length rest)"
    using "2.prems" cs by simp_all
  from "2.IH"(2) [OF nospace hi cs lo this] obtain bs where
    bs: "fromhex rest = Some bs" and len: "2 * length bs = length rest"
    and num: "\<And>acc. hex_number acc rest = Some (foldl (\<lambda>a b. 256 * a + b) acc bs)"
    by blast
  have "fromhex (c # cs) = Some ((16 * hi + lo) # bs)"
    by (simp add: nospace hi cs lo bs)
  moreover have "2 * length ((16 * hi + lo) # bs) = length (c # cs)"
    by (simp add: cs len)
  moreover have "hex_number acc (c # cs)
      = Some (foldl (\<lambda>a b. 256 * a + b) acc ((16 * hi + lo) # bs))" for acc
    by (simp add: hi cs lo num algebra_simps)
  ultimately show ?case by blast
qed

lemma ObjectId_of_str_str: "ObjectId_of_str (str_ObjectId (ObjectId w)) = Inr (ObjectId w)"
proof -
  let ?s = "hex_of 24 (unat w)"
  have "unat w < 2 ^ 96"
    using unsigned_less [of w] by simp
  then have small: "unat w mod 16 ^ 24 = unat w"
    by simp
  from fromhex_digits [OF hex_of_digits, of 24 "unat w"] obtain bs where
    bs: "fromhex ?s = Some bs" and len: "2 * length bs = length ?s"
    and num: "hex_number 0 ?s = Some (foldl (\<lambda>a b. 256 * a + b) 0 bs)"
    by (auto simp: length_hex_of)
  from len have twelve: "length bs = 12"
    by (simp add: length_hex_of)
  have "hex_number 0 ?s = Some (unat w)"
    using hex_number_hex_of [of 0 24 "unat w"] small by simp
  with num have "bytes_value bs = unat w"
    by (simp add: bytes_value_def)
  then show ?thesis
    by (simp add: ObjectId_of_str_def str_ObjectId_def length_hex_of bs twelve)
qed

lemma ObjectId_of_str_new_oid: "ObjectId_of_str (str_ObjectId (new_oid d)) = Inr (new_oid d)"
  by (simp add: new_oid_def ObjectId_of_str_str)

lemma str_ObjectId_inj: "str_ObjectId (ObjectId a) = str_ObjectId (ObjectId b) \<longleftrightarrow> a = b"
proof
  assume "str_ObjectId (ObjectId a) = str_ObjectId (ObjectId b)"
  then have "ObjectId_of_str (str_ObjectId (ObjectId a)) = ObjectId_of_str (str_ObjectId (ObjectId b))"
    by simp
  then show "a = b"
    by (simp add: ObjectId_of_str_str)
qed simp

lemma well_formed_str: "well_formed_id (str_ObjectId (ObjectId w))"
  by (simp add: well_formed_id_def ObjectId_of_str_str)

text \<open>A string in the format of the store is accepted, and gives a 12-byte identifier.\<close>

lemma store_format_accepted:
  assumes "store_format s"
  shows "\<exists>w. ObjectId_of_str s = Inr (ObjectId w)"
proof -
  from assms have digits: "list_all (\<lambda>c. hex_value c \<noteq> None) s" and len: "length s = 24"
    by (simp_all add: store_format_def)
  from fromhex_digits [OF digits] len obtain bs where
    "fromhex s = Some bs" and "2 * length bs = length s"
    by auto
  with len show ?thesis
    by (simp add: ObjectId_of_str_def)
qed

lemma store_format_well_formed: "store_format s \<Longrightarrow> well_formed_id s"
  using store_format_accepted [of s] by (auto simp: well_formed_id_def)

section \<open>The driver operations\<close>

lemma find_one_append:
  "find_one flt (xs @ ys) = (case find_one flt xs of None \<Rightarrow> find_one flt ys | Some x \<Rightarrow> Some x)"
  by (induction xs) (simp_all add: find_one_def)

lemma find_one_None: "find_one flt xs = None \<longleftrightarrow> (\<forall>x \<in> set xs. \<not> flt x)"
  by (auto simp: find_one_def find_None_iff)

lemma find_one_update_one:
  "find_one (\<lambda>doc. fst doc = oid) (update_one (\<lambda>doc. fst doc = oid) upd coll) =
     map_option (\<lambda>doc. (fst doc, upd (snd doc))) (find_one (\<lambda>doc. fst doc = oid) coll)"
  by (induction coll) (simp_all add: find_one_def)

lemma update_one_fresh:
  "oid \<notin> fst ` set coll \<Longrightarrow>
   update_one (\<lambda>doc. fst doc = oid) upd (coll @ [(oid, j)]) = coll @ [(oid, upd j)]"
  by (induction coll) auto

section \<open>The fulfilment loop\<close>

lemma generate_mock_leads_eq:
  "industry_keywords payload = industry # others \<Longrightarrow>
   generate_mock_leads payload jid idxs acc d =
     (Inr (acc @ map (mock_lead payload jid industry) idxs),
      d\<lparr>lead := lead d @ map (\<lambda>(k, i). (ObjectId (of_nat k), mock_lead payload jid industry i))
                          (enumerate (next_oid d) idxs),
        next_oid := next_oid d + length idxs\<rparr>)"
proof (induction idxs arbitrary: acc d)
  case Nil
  then show ?case by simp
next
  case (Cons i idxs)
  then show ?case
    by (simp add: create_document_lead_def new_oid_def)
qed

lemma contact_names:
  "map (\<lambda>i. ''Contact '' @ str_int i) [1..10] =
     [''Contact 1'', ''Contact 2'', ''Contact 3'', ''Contact 4'', ''Contact 5'',
      ''Contact 6'', ''Contact 7'', ''Contact 8'', ''Contact 9'', ''Contact 10'']"
  by code_simp

lemma contact_emails:
  "map (\<lambda>i. ''contact'' @ str_int i @ ''@example.com'') [1..10] =
     [''contact1@example.com'', ''contact2@example.com'', ''contact3@example.com'',
      ''contact4@example.com'', ''contact5@example.com'', ''contact6@example.com'',
      ''contact7@example.com'', ''contact8@example.com'', ''contact9@example.com'',
      ''contact10@example.com'']"
  by code_simp

lemma contact_phones:
  "map (\<lambda>i. ''+1-202-555-01'' @ format_02d i) [1..10] =
     [''+1-202-555-0101'', ''+1-202-555-0102'', ''+1-202-555-0103'', ''+1-202-555-0104'',
      ''+1-202-555-0105'', ''+1-202-555-0106'', ''+1-202-555-0107'', ''+1-202-555-0108'',
      ''+1-202-555-0109'', ''+1-202-555-0110'']"
  by code_simp

lemma contact_links:
  "map (\<lambda>i. ''https://linkedin.com/in/contact'' @ str_int i) [1..10] =
     [''https://linkedin.com/in/contact1'', ''https://linkedin.com/in/contact2'',
      ''https://linkedin.com/in/contact3'', ''https://linkedin.com/in/contact4'',
      ''https://linkedin.com/in/contact5'', ''https://linkedin.com/in/contact6'',
      ''https://linkedin.com/in/contact7'', ''https://linkedin.com/in/contact8'',
      ''https://linkedin.com/in/contact9'', ''https://linkedin.com/in/contact10'']"
  by code_simp

lemma map_snd_enumerate:
  "map (f \<circ> snd) (map (\<lambda>(k, i). (g k, h i)) (enumerate n xs)) = map (f \<circ> h) xs"
  by (induction xs arbitrary: n) simp_all

lemma request_leads_eq:
  assumes "industry_keywords payload = industry # others"
  shows "\<exists>resp. request_leads (Some d) payload =
     (Inr resp,
      Some (d\<lparr>leadjob :=
                update_one (\<lambda>doc. fst doc = new_oid d)
                  (\<lambda>j. j\<lparr>job_status := ''ready'', job_result_count := 10\<rparr>)
                  (leadjob d @ [(new_oid d, new_LeadJob payload)]),
              lead := lead d @
                map (\<lambda>(k, i). (ObjectId (of_nat k),
                                 mock_lead payload (str_ObjectId (new_oid d)) industry i))
                  (enumerate (Suc (next_oid d)) [1..10]),
              next_oid := next_oid d + 11\<rparr>))
     \<and> job_id resp = str_ObjectId (new_oid d) \<and> status resp = ''processing''"
  using assms
  by (simp add: request_leads_def create_document_leadjob_def generate_mock_leads_eq
        ObjectId_of_str_new_oid)

lemma find_one_by_id_append:
  "\<exists>j'. find_one (\<lambda>doc. fst doc = oid) (coll @ [(oid, j)]) = Some (oid, j')"
  by (induction coll) (auto simp: find_one_def)

lemma valid_LeadRequest_keywords:
  "valid_LeadRequest payload \<Longrightarrow> \<exists>industry others. industry_keywords payload = industry # others"
  by (cases "industry_keywords payload") (simp_all add: valid_LeadRequest_def)

section \<open>Identifiers passed to the read endpoints\<close>

text \<open>
  C4, as amended: with the store available, a string that \<^verbatim>\<open>ObjectId(s)\<close> rejects (its
  length is not 24, or \<^verbatim>\<open>bytes.fromhex\<close> fails on it), passed to \<^verbatim>\<open>me\<close>,
  \<^verbatim>\<open>get_lead_status\<close> or \<^verbatim>\<open>get_lead_results\<close>, is answered by an \<^verbatim>\<open>HTTPException\<close>
  with status 400: no other exception leaves the handler and the status is never 500.
\<close>

theorem malformed_id_bad_request:
  assumes "\<not> well_formed_id s"
  shows "me (Some d) s = Inl (HTTPException 400 ''Invalid token'') \<and>
         get_lead_status (Some d) s = Inl (HTTPException 400 ''Invalid job id'') \<and>
         get_lead_results (Some d) s = Inl (HTTPException 400 ''Invalid job id'') \<and>
         http_status (me (Some d) s) = 400 \<and>
         http_status (get_lead_status (Some d) s) = 400 \<and>
         http_status (get_lead_results (Some d) s) = 400"
  using assms
  by (auto simp: well_formed_id_def me_def get_lead_status_def get_lead_results_def
        try_except_def split: sum.splits)

theorem malformed_id_bad_request_witness:
  "\<not> well_formed_id ''not-an-id'' \<and>
   me (Some empty_database) ''not-an-id'' = Inl (HTTPException 400 ''Invalid token'') \<and>
   get_lead_status (Some empty_database) ''not-an-id'' = Inl (HTTPException 400 ''Invalid job id'') \<and>
   get_lead_results (Some empty_database) ''not-an-id'' = Inl (HTTPException 400 ''Invalid job id'')"
proof -
  have h: "\<not> well_formed_id ''not-an-id''"
    by (simp add: well_formed_id_def ObjectId_of_str_def)
  from malformed_id_bad_request [OF h, of empty_database] show ?thesis
    using h by simp
qed

text \<open>
  The claim as it is written, for every string that is not in the format of the store's
  identifiers, fails: 22 zeros followed by 2 spaces is not in that format, yet
  \<^verbatim>\<open>ObjectId\<close> accepts it (\<^verbatim>\<open>bytes.fromhex\<close> skips the spaces and returns 11 bytes), and
  \<^verbatim>\<open>get_lead_results\<close> answers 200 with the leads whose \<^verbatim>\<open>job_id\<close> is that string, here
  none.
\<close>

theorem whitespace_id_answers_200:
  "\<not> store_format ''0000000000000000000000  '' \<and>
   ObjectId_of_str ''0000000000000000000000  ''
     = Inr (ShortObjectId [0, 0, 0, 0, 0, 0, 0, 0, 0, 0, 0]) \<and>
   get_lead_results (Some empty_database) ''0000000000000000000000  '' = Inr [] \<and>
   http_status (get_lead_results (Some empty_database) ''0000000000000000000000  '') = 200"
  by code_simp

text \<open>
  C3: a well-formed identifier that matches no record should be answered with 404. In the
  code the \<^verbatim>\<open>HTTPException(404)\<close> is raised inside the \<^verbatim>\<open>try\<close> block whose
  \<^verbatim>\<open>except Exception\<close> clause catches it and raises status 400 in its place: on the empty
  store, the identifier of 24 zeros is well-formed, matches no user and no job, and both
  \<^verbatim>\<open>me\<close> and \<^verbatim>\<open>get_lead_status\<close> answer 400.
\<close>

theorem unknown_id_answers_400:
  "well_formed_id ''000000000000000000000000'' \<and>
   ObjectId_of_str ''000000000000000000000000'' = Inr (ObjectId 0) \<and>
   find_one (\<lambda>doc. fst doc = ObjectId 0) (user empty_database) = None \<and>
   find_one (\<lambda>doc. fst doc = ObjectId 0) (leadjob empty_database) = None \<and>
   me (Some empty_database) ''000000000000000000000000''
     = Inl (HTTPException 400 ''Invalid token'') \<and>
   get_lead_status (Some empty_database) ''000000000000000000000000''
     = Inl (HTTPException 400 ''Invalid job id'')"
  by code_simp

section \<open>Login and the password\<close>

text \<open>
  C9: the outcome of \<^verbatim>\<open>login\<close> does not depend on the password. From the same store, two
  login requests with the same email and any two passwords give the same response and the
  same resulting store.
\<close>

theorem login_ignores_password:
  "login db \<lparr>login_email = email, login_password = p1\<rparr> =
   login db \<lparr>login_email = email, login_password = p2\<rparr>"
  by (cases db) (simp_all add: login_def)

section \<open>Fulfilment of a lead request\<close>

text \<open>
  C1: for a valid lead request, on an available store that hands out an identifier no job
  of the store has yet, \<^verbatim>\<open>request_leads\<close> returns a response, appends exactly 10 Lead
  documents to the \<^verbatim>\<open>lead\<close> collection, each with \<^verbatim>\<open>job_id\<close> equal to the \<^verbatim>\<open>job_id\<close>
  of the response, and appends one LeadJob, whose identifier is that \<^verbatim>\<open>job_id\<close> and
  whose \<^verbatim>\<open>result_count\<close> is 10 when the call returns.
\<close>

theorem request_leads_creates_ten_leads:
  assumes "valid_LeadRequest payload"
    and "new_oid d \<notin> fst ` set (leadjob d)"
  shows "\<exists>resp d'. request_leads (Some d) payload = (Inr resp, Some d') \<and>
           (\<exists>new. lead d' = lead d @ new \<and> length new = 10 \<and>
                  (\<forall>l \<in> set new. lead_job_id (snd l) = job_id resp)) \<and>
           (\<exists>oid job. leadjob d' = leadjob d @ [(oid, job)] \<and>
                  str_ObjectId oid = job_id resp \<and> job_result_count job = 10)"
proof -
  from assms(1) obtain industry others where kw: "industry_keywords payload = industry # others"
    using valid_LeadRequest_keywords by blast
  from request_leads_eq [OF kw, of d] obtain resp d' where
    run: "request_leads (Some d) payload = (Inr resp, Some d')"
    and jid: "job_id resp = str_ObjectId (new_oid d)"
    and st: "d' = d\<lparr>leadjob :=
                update_one (\<lambda>doc. fst doc = new_oid d)
                  (\<lambda>j. j\<lparr>job_status := ''ready'', job_result_count := 10\<rparr>)
                  (leadjob d @ [(new_oid d, new_LeadJob payload)]),
              lead := lead d @
                map (\<lambda>(k, i). (ObjectId (of_nat k),
                                 mock_lead payload (str_ObjectId (new_oid d)) industry i))
                  (enumerate (Suc (next_oid d)) [1..10]),
              next_oid := next_oid d + 11\<rparr>"
    by blast
  have leads: "\<exists>new. lead d' = lead d @ new \<and> length new = 10 \<and>
                  (\<forall>l \<in> set new. lead_job_id (snd l) = job_id resp)"
    unfolding st jid by (auto simp: mock_lead_def)
  have job: "\<exists>oid job. leadjob d' = leadjob d @ [(oid, job)] \<and>
                  str_ObjectId oid = job_id resp \<and> job_result_count job = 10"
    unfolding st jid by (simp add: update_one_fresh [OF assms(2)])
  from run leads job show ?thesis by blast
qed

theorem request_leads_creates_ten_leads_witness:
  "valid_LeadRequest example_request \<and>
   new_oid empty_database \<notin> fst ` set (leadjob empty_database) \<and>
   (\<exists>resp d'. request_leads (Some empty_database) example_request = (Inr resp, Some d') \<and>
           (\<exists>new. lead d' = lead empty_database @ new \<and> length new = 10 \<and>
                  (\<forall>l \<in> set new. lead_job_id (snd l) = job_id resp)) \<and>
           (\<exists>oid job. leadjob d' = leadjob empty_database @ [(oid, job)] \<and>
                  str_ObjectId oid = job_id resp \<and> job_result_count job = 10))"
proof -
  have h1: "valid_LeadRequest example_request"
    by (simp add: valid_LeadRequest_def example_request_def)
  have h2: "new_oid empty_database \<notin> fst ` set (leadjob empty_database)"
    by (simp add: empty_database_def)
  from request_leads_creates_ten_leads [OF h1 h2] h1 h2 show ?thesis
    by blast
qed

text \<open>
  C2: for a valid lead request on an available store, \<^verbatim>\<open>get_lead_status\<close> called with
  the returned \<^verbatim>\<open>job_id\<close> on the store that \<^verbatim>\<open>request_leads\<close> leaves answers with
  status \<^verbatim>\<open>ready\<close> (and \<^verbatim>\<open>result_count\<close> 10): the job is fulfilled within the call.
\<close>

theorem status_ready_after_request:
  assumes "valid_LeadRequest payload"
  shows "\<exists>resp d'. request_leads (Some d) payload = (Inr resp, Some d') \<and>
           get_lead_status (Some d') (job_id resp) =
             Inr \<lparr>status_status = ''ready'', status_result_count = 10\<rparr>"
proof -
  from assms obtain industry others where kw: "industry_keywords payload = industry # others"
    using valid_LeadRequest_keywords by blast
  from request_leads_eq [OF kw, of d] obtain resp d' where
    run: "request_leads (Some d) payload = (Inr resp, Some d')"
    and jid: "job_id resp = str_ObjectId (new_oid d)"
    and jobs: "leadjob d' =
                update_one (\<lambda>doc. fst doc = new_oid d)
                  (\<lambda>j. j\<lparr>job_status := ''ready'', job_result_count := 10\<rparr>)
                  (leadjob d @ [(new_oid d, new_LeadJob payload)])"
    by force
  obtain j where found:
    "find_one (\<lambda>doc. fst doc = new_oid d) (leadjob d @ [(new_oid d, new_LeadJob payload)])
       = Some (new_oid d, j)"
    using find_one_by_id_append [of "new_oid d" "leadjob d" "new_LeadJob payload"] by auto
  have "get_lead_status (Some d') (job_id resp) =
             Inr \<lparr>status_status = ''ready'', status_result_count = 10\<rparr>"
    by (simp add: get_lead_status_def jid ObjectId_of_str_new_oid jobs find_one_update_one
          found try_except_def)
  with run show ?thesis by blast
qed

theorem status_ready_after_request_witness:
  "valid_LeadRequest example_request \<and>
   (\<exists>resp d'. request_leads (Some empty_database) example_request = (Inr resp, Some d') \<and>
           get_lead_status (Some d') (job_id resp) =
             Inr \<lparr>status_status = ''ready'', status_result_count = 10\<rparr>)"
proof -
  have h: "valid_LeadRequest example_request"
    by (simp add: valid_LeadRequest_def example_request_def)
  from status_ready_after_request [OF h, of empty_database] h show ?thesis
    by blast
qed

text \<open>
  C8: for a valid lead request on an available store, the Lead documents that
  \<^verbatim>\<open>request_leads\<close> appends are, in order, named \<^verbatim>\<open>Contact 1\<close> to \<^verbatim>\<open>Contact 10\<close>, with
  emails \<^verbatim>\<open>contact1@example.com\<close> to \<^verbatim>\<open>contact10@example.com\<close>, phone numbers ending
  in the index written with two digits, and links ending in \<^verbatim>\<open>contact1\<close> to
  \<^verbatim>\<open>contact10\<close>; each has the first industry keyword of the request as its industry and
  the title, location and company size of the request.
\<close>

theorem mock_lead_fields:
  assumes "valid_LeadRequest payload"
  shows "\<exists>resp d' new. request_leads (Some d) payload = (Inr resp, Some d') \<and>
           lead d' = lead d @ new \<and>
           map (lead_name \<circ> snd) new =
             [''Contact 1'', ''Contact 2'', ''Contact 3'', ''Contact 4'', ''Contact 5'',
              ''Contact 6'', ''Contact 7'', ''Contact 8'', ''Contact 9'', ''Contact 10''] \<and>
           map (lead_email \<circ> snd) new =
             map Some
              [''contact1@example.com'', ''contact2@example.com'', ''contact3@example.com'',
               ''contact4@example.com'', ''contact5@example.com'', ''contact6@example.com'',
               ''contact7@example.com'', ''contact8@example.com'', ''contact9@example.com'',
               ''contact10@example.com''] \<and>
           map (lead_phone \<circ> snd) new =
             map Some
              [''+1-202-555-0101'', ''+1-202-555-0102'', ''+1-202-555-0103'',
               ''+1-202-555-0104'', ''+1-202-555-0105'', ''+1-202-555-0106'',
               ''+1-202-555-0107'', ''+1-202-555-0108'', ''+1-202-555-0109'',
               ''+1-202-555-0110''] \<and>
           map (lead_linkedin \<circ> snd) new =
             map Some
              [''https://linkedin.com/in/contact1'', ''https://linkedin.com/in/contact2'',
               ''https://linkedin.com/in/contact3'', ''https://linkedin.com/in/contact4'',
               ''https://linkedin.com/in/contact5'', ''https://linkedin.com/in/contact6'',
               ''https://linkedin.com/in/contact7'', ''https://linkedin.com/in/contact8'',
               ''https://linkedin.com/in/contact9'', ''https://linkedin.com/in/contact10''] \<and>
           (\<forall>l \<in> set new.
              lead_industry (snd l) = Some (hd (industry_keywords payload)) \<and>
              lead_title (snd l) = job_title payload \<and>
              lead_location (snd l) = location payload \<and>
              lead_company_size (snd l) = company_size_range payload)"
proof -
  from assms obtain industry others where kw: "industry_keywords payload = industry # others"
    using valid_LeadRequest_keywords by blast
  define new where "new =
     map (\<lambda>(k, i). (ObjectId (of_nat k),
                      mock_lead payload (str_ObjectId (new_oid d)) industry i))
       (enumerate (Suc (next_oid d)) [1..10])"
  from request_leads_eq [OF kw, of d] obtain resp d' where
    run: "request_leads (Some d) payload = (Inr resp, Some d')"
    and leads: "lead d' = lead d @ new"
    unfolding new_def by force
  have names: "map (lead_name \<circ> snd) new = map (\<lambda>i. ''Contact '' @ str_int i) [1..10]"
    unfolding new_def map_snd_enumerate by (simp add: mock_lead_def comp_def)
  have emails: "map (lead_email \<circ> snd) new =
      map Some (map (\<lambda>i. ''contact'' @ str_int i @ ''@example.com'') [1..10])"
    unfolding new_def map_snd_enumerate by (simp add: mock_lead_def comp_def)
  have phones: "map (lead_phone \<circ> snd) new =
      map Some (map (\<lambda>i. ''+1-202-555-01'' @ format_02d i) [1..10])"
    unfolding new_def map_snd_enumerate by (simp add: mock_lead_def comp_def)
  have links: "map (lead_linkedin \<circ> snd) new =
      map Some (map (\<lambda>i. ''https://linkedin.com/in/contact'' @ str_int i) [1..10])"
    unfolding new_def map_snd_enumerate by (simp add: mock_lead_def comp_def)
  have copied: "\<forall>l \<in> set new.
              lead_industry (snd l) = Some (hd (industry_keywords payload)) \<and>
              lead_title (snd l) = job_title payload \<and>
              lead_location (snd l) = location payload \<and>
              lead_company_size (snd l) = company_size_range payload"
    unfolding new_def by (auto simp: mock_lead_def kw)
  note fields = names [unfolded contact_names] emails [unfolded contact_emails]
    phones [unfolded contact_phones] links [unfolded contact_links]
  show ?thesis
    by (rule exI [of _ resp], rule exI [of _ d'], rule exI [of _ new])
      (intro conjI run leads fields copied)
qed

theorem mock_lead_fields_witness:
  "valid_LeadRequest example_request \<and>
   (\<exists>resp d' new. request_leads (Some empty_database) example_request = (Inr resp, Some d') \<and>
            lead d' = lead empty_database @ new \<and>
            map (lead_name \<circ> snd) new =
              [''Contact 1'', ''Contact 2'', ''Contact 3'', ''Contact 4'', ''Contact 5'',
               ''Contact 6'', ''Contact 7'', ''Contact 8'', ''Contact 9'', ''Contact 10''] \<and>
            map (lead_email \<circ> snd) new =
              map Some
               [''contact1@example.com'', ''contact2@example.com'', ''contact3@example.com'',
                ''contact4@example.com'', ''contact5@example.com'', ''contact6@example.com'',
                ''contact7@example.com'', ''contact8@example.com'', ''contact9@example.com'',
                ''contact10@example.com''] \<and>
            map (lead_phone \<circ> snd) new =
              map Some
               [''+1-202-555-0101'', ''+1-202-555-0102'', ''+1-202-555-0103'',
                ''+1-202-555-0104'', ''+1-202-555-0105'', ''+1-202-555-0106'',
                ''+1-202-555-0107'', ''+1-202-555-0108'', ''+1-202-555-0109'',
                ''+1-202-555-0110''] \<and>
            map (lead_linkedin \<circ> snd) new =
              map Some
               [''https://linkedin.com/in/contact1'', ''https://linkedin.com/in/contact2'',
                ''https://linkedin.com/in/contact3'', ''https://linkedin.com/in/contact4'',
                ''https://linkedin.com/in/contact5'', ''https://linkedin.com/in/contact6'',
                ''https://linkedin.com/in/contact7'', ''https://linkedin.com/in/contact8'',
                ''https://linkedin.com/in/contact9'', ''https://linkedin.com/in/contact10''] \<and>
            (\<forall>l \<in> set new.
               lead_industry (snd l) = Some (hd (industry_keywords example_request)) \<and>
               lead_title (snd l) = job_title example_request \<and>
               lead_location (snd l) = location example_request \<and>
               lead_company_size (snd l) = company_size_range example_request))"
proof -
  have h: "valid_LeadRequest example_request"
    by (simp add: valid_LeadRequest_def example_request_def)
  show ?thesis
    by (rule conjI [OF h mock_lead_fields [OF h, of empty_database]])
qed

section \<open>Reading the results of a job\<close>

text \<open>
  C7: for a well-formed \<^verbatim>\<open>job_id\<close> on an available store, \<^verbatim>\<open>get_lead_results\<close> returns
  a list of at most 200 leads; every returned lead has its \<^verbatim>\<open>job_id\<close> field equal to the
  given \<^verbatim>\<open>job_id\<close>, is a Lead document of the store, and carries the identifier of that
  document in its display form, a string.
\<close>

theorem results_belong_to_job:
  assumes "well_formed_id jid"
  shows "\<exists>leads. get_lead_results (Some d) jid = Inr leads \<and>
           length leads \<le> 200 \<and>
           (\<forall>l \<in> set leads. lead_job_id (snd l) = jid \<and>
              (\<exists>oid. (oid, snd l) \<in> set (lead d) \<and> fst l = str_ObjectId oid))"
  using assms
  by (auto simp: well_formed_id_def get_lead_results_def get_documents_lead_def try_except_def
        split: sum.splits dest!: in_set_takeD)

text \<open>
  On the example store, the results of the first job are its two leads, with their
  identifiers as strings, and not the lead of the second job.
\<close>

theorem results_belong_to_job_witness:
  "well_formed_id ''000000000000000000000000'' \<and>
   length (lead example_store) = 3 \<and>
   get_lead_results (Some example_store) ''000000000000000000000000'' =
     Inr [(''000000000000000000000002'',
           mock_lead example_request ''000000000000000000000000'' ''SaaS'' 1),
          (''000000000000000000000004'',
           mock_lead example_request ''000000000000000000000000'' ''SaaS'' 2)] \<and>
   (\<exists>leads. get_lead_results (Some example_store) ''000000000000000000000000'' = Inr leads \<and>
           length leads \<le> 200 \<and>
           (\<forall>l \<in> set leads. lead_job_id (snd l) = ''000000000000000000000000'' \<and>
              (\<exists>oid. (oid, snd l) \<in> set (lead example_store) \<and> fst l = str_ObjectId oid)))"
proof -
  have h: "well_formed_id ''000000000000000000000000''"
    by code_simp
  have three: "length (lead example_store) = 3"
    by (simp add: example_store_def)
  have run: "get_lead_results (Some example_store) ''000000000000000000000000'' =
     Inr [(''000000000000000000000002'',
           mock_lead example_request ''000000000000000000000000'' ''SaaS'' 1),
          (''000000000000000000000004'',
           mock_lead example_request ''000000000000000000000000'' ''SaaS'' 2)]"
    by code_simp
  show ?thesis
    by (intro conjI h three run results_belong_to_job [OF h, of example_store])
qed

text \<open>
  C10: for a well-formed identifier that no Lead of the store references, on an available
  store, \<^verbatim>\<open>get_lead_results\<close> succeeds with the empty list, whether a LeadJob with that
  identifier exists or not: there is no check that the job exists and no 404.
\<close>

theorem results_empty_for_unknown_job:
  assumes "well_formed_id jid"
    and "leads_of d jid = []"
  shows "get_lead_results (Some d) jid = Inr []"
  using assms
  by (auto simp: well_formed_id_def get_lead_results_def get_documents_lead_def try_except_def
        leads_of_def split: sum.splits)

theorem results_empty_for_unknown_job_witness:
  "well_formed_id ''000000000000000000000000'' \<and>
   leads_of empty_database ''000000000000000000000000'' = [] \<and>
   find_one (\<lambda>doc. fst doc = ObjectId 0) (leadjob empty_database) = None \<and>
   get_lead_results (Some empty_database) ''000000000000000000000000'' = Inr []"
proof -
  have h1: "well_formed_id ''000000000000000000000000''"
    by code_simp
  have h2: "leads_of empty_database ''000000000000000000000000'' = []"
    by (simp add: leads_of_def empty_database_def)
  have h3: "find_one (\<lambda>doc. fst doc = ObjectId 0) (leadjob empty_database) = None"
    by (simp add: find_one_def empty_database_def)
  from results_empty_for_unknown_job [OF h1 h2] h1 h2 h3 show ?thesis
    by blast
qed

section \<open>Find or create a user\<close>

lemma find_one_Some_filter:
  "find_one flt coll = Some x \<Longrightarrow> filter flt coll \<noteq> [] \<and> hd (filter flt coll) = x"
  by (induction coll) (auto simp: find_one_def split: if_splits)

lemma find_or_create_user_twice:
  assumes em: "user_email u1 = email"
    and one: "length (users_with_email d email) \<le> 1"
  shows "\<exists>r1 r2 d'. find_or_create_user d email u1 = (Inr r1, Some d') \<and>
           find_or_create_user d' email u2 = (Inr r2, Some d') \<and>
           token r1 = token r2 \<and>
           length (users_with_email d' email) = 1"
proof (cases "find_one (\<lambda>doc. user_email (snd doc) = email) (user d)")
  case None
  then have nouser: "filter (\<lambda>doc. user_email (snd doc) = email) (user d) = []"
    by (simp add: find_one_None filter_empty_conv)
  obtain u where found:
    "find_one (\<lambda>doc. fst doc = new_oid d) (user d @ [(new_oid d, u1)]) = Some (new_oid d, u)"
    using find_one_by_id_append [of "new_oid d" "user d" u1] by auto
  let ?d' = "d\<lparr>user := user d @ [(new_oid d, u1)], next_oid := Suc (next_oid d)\<rparr>"
  have first: "find_or_create_user d email u1 = (Inr (auth_response (new_oid d, u)), Some ?d')"
    by (simp add: find_or_create_user_def None create_document_user_def ObjectId_of_str_new_oid
          found auth_result_def)
  have again: "find_one (\<lambda>doc. user_email (snd doc) = email) (user d @ [(new_oid d, u1)])
      = Some (new_oid d, u1)"
    by (simp add: find_one_append None) (simp add: find_one_def em)
  have second: "find_or_create_user ?d' email u2 = (Inr (auth_response (new_oid d, u1)), Some ?d')"
    by (simp add: find_or_create_user_def again auth_result_def)
  have cnt: "length (users_with_email ?d' email) = 1"
    by (simp add: users_with_email_def nouser em)
  from first second cnt show ?thesis
    by (auto simp: auth_response_def)
next
  case (Some usr)
  have first: "find_or_create_user d email u = (Inr (auth_response usr), Some d)" for u
    by (simp add: find_or_create_user_def Some auth_result_def)
  from find_one_Some_filter [OF Some] one have "length (users_with_email d email) = 1"
    by (cases "users_with_email d email") (auto simp: users_with_email_def)
  with first show ?thesis by auto
qed

lemma find_or_create_user_store:
  assumes "find_or_create_user d email u = (r, Some d')"
  shows "d' = d \<or>
         (users_with_email d email = [] \<and>
          d' = d\<lparr>user := user d @ [(new_oid d, u)], next_oid := Suc (next_oid d)\<rparr>)"
proof (cases "find_one (\<lambda>doc. user_email (snd doc) = email) (user d)")
  case None
  then have "users_with_email d email = []"
    by (simp add: find_one_None users_with_email_def filter_empty_conv)
  with assms None show ?thesis
    by (auto simp: find_or_create_user_def create_document_user_def ObjectId_of_str_new_oid)
next
  case (Some usr)
  with assms show ?thesis
    by (simp add: find_or_create_user_def)
qed

text \<open>
  C5: \<^verbatim>\<open>login\<close> and \<^verbatim>\<open>google_auth\<close> are idempotent on the email. On an available store
  with at most one user of that email, two calls in a row with the same email (two logins,
  two Google sign-ins, or one of each, with any passwords and names) both succeed and return
  the same token, the second call leaves the store as the first one left it, and exactly
  one user with that email is in the store afterwards.
\<close>

theorem auth_idempotent_on_email:
  assumes "length (users_with_email d email) \<le> 1"
  shows "(\<exists>r1 r2 d'.
            login (Some d) \<lparr>login_email = email, login_password = p1\<rparr> = (Inr r1, Some d') \<and>
            login (Some d') \<lparr>login_email = email, login_password = p2\<rparr> = (Inr r2, Some d') \<and>
            token r1 = token r2 \<and> length (users_with_email d' email) = 1) \<and>
         (\<exists>r1 r2 d'.
            google_auth (Some d) \<lparr>google_email = email, google_name = n1\<rparr> = (Inr r1, Some d') \<and>
            google_auth (Some d') \<lparr>google_email = email, google_name = n2\<rparr> = (Inr r2, Some d') \<and>
            token r1 = token r2 \<and> length (users_with_email d' email) = 1) \<and>
         (\<exists>r1 r2 d'.
            login (Some d) \<lparr>login_email = email, login_password = p1\<rparr> = (Inr r1, Some d') \<and>
            google_auth (Some d') \<lparr>google_email = email, google_name = n2\<rparr> = (Inr r2, Some d') \<and>
            token r1 = token r2 \<and> length (users_with_email d' email) = 1) \<and>
         (\<exists>r1 r2 d'.
            google_auth (Some d) \<lparr>google_email = email, google_name = n1\<rparr> = (Inr r1, Some d') \<and>
            login (Some d') \<lparr>login_email = email, login_password = p2\<rparr> = (Inr r2, Some d') \<and>
            token r1 = token r2 \<and> length (users_with_email d' email) = 1)"
proof -
  let ?pw = "\<lparr>user_name = None, user_email = email,
              user_password_hash = Some ''demo'', user_auth_provider = ''password'',
              user_is_active = True\<rparr>"
  let ?go = "\<lambda>n. \<lparr>user_name = Some (name_or_empty n), user_email = email,
                  user_password_hash = None, user_auth_provider = ''google'',
                  user_is_active = True\<rparr>"
  have L: "login (Some x) \<lparr>login_email = email, login_password = p\<rparr>
             = find_or_create_user x email ?pw" for x p
    by (simp add: login_def)
  have G: "google_auth (Some x) \<lparr>google_email = email, google_name = n\<rparr>
             = find_or_create_user x email (?go n)" for x n
    by (simp add: google_auth_def)
  have T: "\<exists>r1 r2 d'. find_or_create_user d email u1 = (Inr r1, Some d') \<and>
             find_or_create_user d' email u2 = (Inr r2, Some d') \<and>
             token r1 = token r2 \<and> length (users_with_email d' email) = 1"
    if "user_email u1 = email" for u1 u2
    using find_or_create_user_twice [OF that assms] .
  show ?thesis
    unfolding L G by (intro conjI T) simp_all
qed

theorem auth_idempotent_on_email_witness:
  "length (users_with_email empty_database ''ada@example.com'') \<le> 1 \<and>
   (\<exists>r1 r2 d'.
      login (Some empty_database) \<lparr>login_email = ''ada@example.com'', login_password = ''pw''\<rparr>
        = (Inr r1, Some d') \<and>
      login (Some d') \<lparr>login_email = ''ada@example.com'', login_password = ''pw''\<rparr>
        = (Inr r2, Some d') \<and>
      token r1 = token r2 \<and> length (users_with_email d' ''ada@example.com'') = 1)"
proof -
  have h: "length (users_with_email empty_database ''ada@example.com'') \<le> 1"
    by (simp add: users_with_email_def empty_database_def)
  have "\<exists>r1 r2 d'.
      login (Some empty_database) \<lparr>login_email = ''ada@example.com'', login_password = ''pw''\<rparr>
        = (Inr r1, Some d') \<and>
      login (Some d') \<lparr>login_email = ''ada@example.com'', login_password = ''pw''\<rparr>
        = (Inr r2, Some d') \<and>
      token r1 = token r2 \<and> length (users_with_email d' ''ada@example.com'') = 1"
    by (rule conjunct1 [OF auth_idempotent_on_email [OF h]])
  with h show ?thesis by (rule conjI)
qed


text \<open>
  Every store the API reaches has at most one user for each email, which is what the
  statement above asks of the store.
\<close>

lemma reachable_users_with_email:
  "reachable d \<Longrightarrow> length (users_with_email d email) \<le> 1"
proof (induction rule: reachable.induct)
  case (initial n)
  show ?case by (simp add: users_with_email_def)
next
  case (after_login d payload r d')
  from after_login.hyps(2) have step:
    "find_or_create_user d (login_email payload)
       \<lparr>user_name = None, user_email = login_email payload,
        user_password_hash = Some ''demo'', user_auth_provider = ''password'',
        user_is_active = True\<rparr> = (r, Some d')"
    by (simp add: login_def)
  from find_or_create_user_store [OF step] after_login.IH show ?case
    by (auto simp: users_with_email_def)
next
  case (after_google_auth d gpayload r d')
  from after_google_auth.hyps(2) have step:
    "find_or_create_user d (google_email gpayload)
       \<lparr>user_name = Some (name_or_empty (google_name gpayload)),
        user_email = google_email gpayload,
        user_password_hash = None, user_auth_provider = ''google'',
        user_is_active = True\<rparr> = (r, Some d')"
    by (simp add: google_auth_def)
  from find_or_create_user_store [OF step] after_google_auth.IH show ?case
    by (auto simp: users_with_email_def)
next
  case (after_request_leads d lpayload r' d')
  from after_request_leads.hyps(2) obtain industry others
    where kw: "industry_keywords lpayload = industry # others"
    using valid_LeadRequest_keywords by blast
  from request_leads_eq [OF kw, of d] after_request_leads.hyps(3)
  have "user d' = user d"
    by auto
  with after_request_leads.IH show ?case
    by (simp add: users_with_email_def)
qed

section \<open>The invariant of ready jobs\<close>

lemma find_or_create_user_keeps:
  assumes "find_or_create_user d email u = (r, Some d')"
  shows "leadjob d' = leadjob d \<and> lead d' = lead d \<and> next_oid d \<le> next_oid d'"
  using find_or_create_user_store [OF assms] by auto

lemma new_oid_fresh:
  assumes "jobs_issued d" and "next_oid d < 2 ^ 96"
  shows "new_oid d \<notin> fst ` set (leadjob d)"
proof
  assume "new_oid d \<in> fst ` set (leadjob d)"
  then obtain job where "job \<in> set (leadjob d)" and "fst job = new_oid d"
    by auto
  with assms(1) obtain k where k: "k < next_oid d"
    and same: "(of_nat k :: 96 word) = of_nat (next_oid d)"
    by (auto simp: jobs_issued_def new_oid_def)
  from same have "unat (of_nat k :: 96 word) = unat (of_nat (next_oid d) :: 96 word)"
    by simp
  with k assms(2) show False
    by (simp add: unat_of_nat)
qed

lemma request_leads_store:
  assumes "valid_LeadRequest payload"
    and "new_oid d \<notin> fst ` set (leadjob d)"
    and "request_leads (Some d) payload = (r, Some d')"
  shows "\<exists>job new.
           leadjob d' = leadjob d @ [(new_oid d, job)] \<and>
           job_result_count job = 10 \<and>
           lead d' = lead d @ new \<and> length new = 10 \<and>
           (\<forall>l \<in> set new. lead_job_id (snd l) = str_ObjectId (new_oid d)) \<and>
           next_oid d' = next_oid d + 11 \<and> user d' = user d"
proof -
  from assms(1) obtain industry others where kw: "industry_keywords payload = industry # others"
    using valid_LeadRequest_keywords by blast
  from request_leads_eq [OF kw, of d] assms(3) have
    st: "d' = d\<lparr>leadjob :=
                update_one (\<lambda>doc. fst doc = new_oid d)
                  (\<lambda>j. j\<lparr>job_status := ''ready'', job_result_count := 10\<rparr>)
                  (leadjob d @ [(new_oid d, new_LeadJob payload)]),
              lead := lead d @
                map (\<lambda>(k, i). (ObjectId (of_nat k),
                                 mock_lead payload (str_ObjectId (new_oid d)) industry i))
                  (enumerate (Suc (next_oid d)) [1..10]),
              next_oid := next_oid d + 11\<rparr>"
    by auto
  show ?thesis
    unfolding st by (auto simp: update_one_fresh [OF assms(2)] mock_lead_def)
qed

lemma invariants_after_request_leads:
  assumes iss: "jobs_issued d" and refs: "leads_reference_jobs d" and cnt: "ready_jobs_counted d"
    and valid: "valid_LeadRequest payload"
    and run: "request_leads (Some d) payload = (r, Some d')"
    and bound: "next_oid d' \<le> 2 ^ 96"
  shows "jobs_issued d' \<and> leads_reference_jobs d' \<and> ready_jobs_counted d'"
proof -
  from valid obtain industry others where kw: "industry_keywords payload = industry # others"
    using valid_LeadRequest_keywords by blast
  from request_leads_eq [OF kw, of d] run have "next_oid d' = next_oid d + 11"
    by auto
  with bound have small: "next_oid d < 2 ^ 96" by simp
  have fresh: "new_oid d \<notin> fst ` set (leadjob d)"
    using new_oid_fresh [OF iss small] .
  from request_leads_store [OF valid fresh run] obtain job new where
    jobs: "leadjob d' = leadjob d @ [(new_oid d, job)]"
    and ten: "job_result_count job = 10"
    and leads: "lead d' = lead d @ new" and len: "length new = 10"
    and refnew: "\<forall>l \<in> set new. lead_job_id (snd l) = str_ObjectId (new_oid d)"
    and nxt: "next_oid d' = next_oid d + 11"
    by blast
  have old_differs: "str_ObjectId (fst j) \<noteq> str_ObjectId (new_oid d)" if "j \<in> set (leadjob d)" for j
  proof -
    from that iss obtain k where k: "fst j = ObjectId (of_nat k)"
      by (auto simp: jobs_issued_def)
    from that fresh have "fst j \<noteq> new_oid d"
      by force
    with k show ?thesis
      by (simp add: new_oid_def str_ObjectId_inj)
  qed
  have no_old: "filter (\<lambda>doc. lead_job_id (snd doc) = str_ObjectId (new_oid d)) (lead d) = []"
    using refs old_differs by (fastforce simp: leads_reference_jobs_def filter_empty_conv)
  have all_new: "filter (\<lambda>doc. lead_job_id (snd doc) = str_ObjectId (new_oid d)) new = new"
    using refnew by (simp add: filter_id_conv)
  have none_new: "filter (\<lambda>doc. lead_job_id (snd doc) = str_ObjectId (fst j)) new = []"
    if "j \<in> set (leadjob d)" for j
    using refnew old_differs [OF that] by (auto simp: filter_empty_conv)
  have 1: "jobs_issued d'"
    unfolding jobs_issued_def
  proof
    fix j
    assume "j \<in> set (leadjob d')"
    then consider "j \<in> set (leadjob d)" | "fst j = new_oid d"
      by (auto simp: jobs)
    then show "\<exists>k < next_oid d'. fst j = ObjectId (of_nat k)"
    proof cases
      case 1
      with iss obtain k where "k < next_oid d" and "fst j = ObjectId (of_nat k)"
        by (auto simp: jobs_issued_def)
      then show ?thesis
        by (intro exI [of _ k]) (simp add: nxt)
    next
      case 2
      then show ?thesis
        by (intro exI [of _ "next_oid d"]) (simp add: nxt new_oid_def)
    qed
  qed
  have 2: "leads_reference_jobs d'"
    using refs refnew by (auto simp: leads_reference_jobs_def jobs leads)
  have 3: "ready_jobs_counted d'"
    using cnt
    by (auto simp: ready_jobs_counted_def leads_of_def jobs leads no_old all_new none_new len ten)
  from 1 2 3 show ?thesis by simp
qed


lemma invariants_after_auth:
  assumes "jobs_issued d \<and> leads_reference_jobs d \<and> ready_jobs_counted d"
    and "find_or_create_user d email u = (r, Some d')"
  shows "jobs_issued d' \<and> leads_reference_jobs d' \<and> ready_jobs_counted d'"
proof -
  from find_or_create_user_keeps [OF assms(2)]
  have same: "leadjob d' = leadjob d" "lead d' = lead d" and grow: "next_oid d \<le> next_oid d'"
    by simp_all
  have "jobs_issued d'"
    unfolding jobs_issued_def
  proof
    fix j
    assume "j \<in> set (leadjob d')"
    with assms(1) obtain k where "k < next_oid d" and "fst j = ObjectId (of_nat k)"
      by (auto simp: jobs_issued_def same)
    with grow show "\<exists>k < next_oid d'. fst j = ObjectId (of_nat k)"
      by (intro exI [of _ k]) simp
  qed
  moreover from assms(1) have "leads_reference_jobs d'" and "ready_jobs_counted d'"
    by (simp_all add: leads_reference_jobs_def ready_jobs_counted_def leads_of_def same)
  ultimately show ?thesis by simp
qed

lemma reachable_invariants:
  "reachable d \<Longrightarrow> next_oid d \<le> 2 ^ 96 \<Longrightarrow>
   jobs_issued d \<and> leads_reference_jobs d \<and> ready_jobs_counted d"
proof (induction rule: reachable.induct)
  case (initial n)
  show ?case
    by (simp add: jobs_issued_def leads_reference_jobs_def ready_jobs_counted_def)
next
  case (after_login d payload r d')
  from after_login.hyps(2) have step:
    "find_or_create_user d (login_email payload)
       \<lparr>user_name = None, user_email = login_email payload,
        user_password_hash = Some ''demo'', user_auth_provider = ''password'',
        user_is_active = True\<rparr> = (r, Some d')"
    by (simp add: login_def)
  from find_or_create_user_keeps [OF step] after_login.prems have "next_oid d \<le> 2 ^ 96"
    by simp
  from invariants_after_auth [OF after_login.IH [OF this] step] show ?case .
next
  case (after_google_auth d gpayload r d')
  from after_google_auth.hyps(2) have step:
    "find_or_create_user d (google_email gpayload)
       \<lparr>user_name = Some (name_or_empty (google_name gpayload)),
        user_email = google_email gpayload,
        user_password_hash = None, user_auth_provider = ''google'',
        user_is_active = True\<rparr> = (r, Some d')"
    by (simp add: google_auth_def)
  from find_or_create_user_keeps [OF step] after_google_auth.prems have "next_oid d \<le> 2 ^ 96"
    by simp
  from invariants_after_auth [OF after_google_auth.IH [OF this] step] show ?case .
next
  case (after_request_leads d lpayload r' d')
  from after_request_leads.hyps(2) obtain industry others
    where kw: "industry_keywords lpayload = industry # others"
    using valid_LeadRequest_keywords by blast
  from request_leads_eq [OF kw, of d] after_request_leads.hyps(3)
  have "next_oid d' = next_oid d + 11"
    by auto
  with after_request_leads.prems have "next_oid d \<le> 2 ^ 96"
    by simp
  from after_request_leads.IH [OF this]
  have "jobs_issued d" and "leads_reference_jobs d" and "ready_jobs_counted d"
    by simp_all
  from invariants_after_request_leads [OF this after_request_leads.hyps(2,3) after_request_leads.prems]
  show ?case .
qed

text \<open>
  C6: in every store reachable by the API operations, as long as the store has issued no
  more identifiers than the 12 bytes of an identifier can tell apart, every LeadJob with
  status \<^verbatim>\<open>ready\<close> has \<^verbatim>\<open>result_count\<close> equal to the number of Lead documents whose
  \<^verbatim>\<open>job_id\<close> is the identifier of that job.
\<close>

theorem ready_jobs_counted_reachable:
  assumes "reachable d" and "next_oid d \<le> 2 ^ 96"
  shows "ready_jobs_counted d"
  using reachable_invariants [OF assms] by simp

theorem ready_jobs_counted_reachable_witness:
  "\<exists>r d. request_leads (Some empty_database) example_request = (r, Some d) \<and>
          reachable d \<and> next_oid d \<le> 2 ^ 96 \<and> length (leadjob d) = 1 \<and>
          ready_jobs_counted d"
proof -
  have h: "valid_LeadRequest example_request"
    by (simp add: valid_LeadRequest_def example_request_def)
  have kw: "industry_keywords example_request = ''SaaS'' # []"
    by (simp add: example_request_def)
  from request_leads_eq [OF kw, of empty_database] obtain resp d where
    run: "request_leads (Some empty_database) example_request = (Inr resp, Some d)"
    by blast
  have fresh: "new_oid empty_database \<notin> fst ` set (leadjob empty_database)"
    by (simp add: empty_database_def)
  from request_leads_store [OF h fresh run]
  have nxt: "next_oid d = 11" and one: "length (leadjob d) = 1"
    by (auto simp: empty_database_def)
  have "reachable empty_database"
    unfolding empty_database_def by (rule reachable.initial)
  from reachable.after_request_leads [OF this h run] have r: "reachable d" .
  have b: "next_oid d \<le> 2 ^ 96"
    by (simp add: nxt)
  from ready_jobs_counted_reachable [OF r b] run r b one show ?thesis
    by blast
qed

end
